theory Spec2Isabelle
  imports Main
begin

section \<open>The State class of ember-states (addon/state.js)\<close>

text \<open>
  A shallow embedding of \<^verbatim>\<open>src/addon/state.js\<close>. State instances are mutable
  objects that refer to each other (\<^verbatim>\<open>parentState\<close>, \<^verbatim>\<open>childStates\<close>), so
  they live in an explicit store addressed by references; every method takes the store
  and returns the new one. JavaScript hashes (\<^verbatim>\<open>{}\<close>) are association lists in
  insertion order, which is the order \<^verbatim>\<open>for (name in hash)\<close> visits keys that
  are not array indices. Reading a key a hash has no entry for gives what the hash
  inherits under that name from \<^verbatim>\<open>Object.prototype\<close> (\<^verbatim>\<open>toString\<close>,
  \<^verbatim>\<open>constructor\<close> and the like), and \<^verbatim>\<open>undefined\<close> for every other name.
  A call of a function the file does not define (a method of a state, a listener,
  \<^verbatim>\<open>stateManager.transitionTo\<close>) is recorded, not run: what such a function
  does, raising included, is outside this file.
\<close>

subsection \<open>JavaScript values\<close>

type_synonym ref = nat

text \<open>
  The values a property of a state, an argument of an action or a cache entry can hold.
  \<open>VEvent\<close> is an instance of \<^verbatim>\<open>Ember.$.Event\<close> with its own properties (such a
  value exists only where jQuery is loaded, so \<^verbatim>\<open>Ember.$ && Ember.$.Event\<close> is
  defined whenever one is met). \<open>VFun\<close> is a function without a
  \<^verbatim>\<open>transitionTarget\<close> property, \<open>VTransition t\<close> is the function
  \<^verbatim>\<open>State.transitionTo(t)\<close> returns, \<open>VState r\<close> is the State instance at
  reference \<open>r\<close>, and \<open>VClass d\<close> is State or a subclass of it
  (\<^verbatim>\<open>State.extend(d)\<close>) with the properties \<open>d\<close> it declares.
  \<open>VInherited k\<close> is the function an object inherits under the name \<open>k\<close>
  (\<^verbatim>\<open>Object.prototype.toString\<close> for a hash, \<^verbatim>\<open>State.prototype.trigger\<close> for a
  state), \<open>VPrototype\<close> is the prototype object an object reads under
  \<^verbatim>\<open>__proto__\<close> (\<^verbatim>\<open>Object.prototype\<close> for a hash), and \<open>VComputed k\<close> is
  the property object \<^verbatim>\<open>Ember.computed\<close> returned for the computed property
  \<open>k\<close> of the class. Numbers are integers (no NaN).
\<close>

datatype val =
    VUndef
  | VNull
  | VBool bool
  | VNum int
  | VStr string
  | VArr "val list"
  | VObj "(string \<times> val) list"
  | VEvent "(string \<times> val) list"
  | VFun nat
  | VTransition string
  | VState ref
  | VClass "(string \<times> val) list"
  | VInherited string
  | VPrototype
  | VComputed string

type_synonym hash = "(string \<times> val) list"

datatype error = TypeError

text \<open>JavaScript truthiness: what \<^verbatim>\<open>if (v)\<close>, \<^verbatim>\<open>!v\<close> and \<^verbatim>\<open>v || w\<close> test.\<close>

fun truthy :: "val \<Rightarrow> bool" where
  "truthy VUndef = False"
| "truthy VNull = False"
| "truthy (VBool b) = b"
| "truthy (VNum n) = (n \<noteq> 0)"
| "truthy (VStr s) = (s \<noteq> [])"
| "truthy _ = True"

text \<open>
  \<^verbatim>\<open>hash[k] = v\<close> making \<open>k\<close> an own property of the hash: an existing key
  keeps its place, a new key goes last.
\<close>

fun hash_put :: "('k \<times> 'v) list \<Rightarrow> 'k \<Rightarrow> 'v \<Rightarrow> ('k \<times> 'v) list" where
  "hash_put [] k v = [(k, v)]"
| "hash_put ((k', v') # m) k v =
     (if k' = k then (k, v) # m else (k', v') # hash_put m k v)"

text \<open>
  The members of \<^verbatim>\<open>Object.prototype\<close>, which every hash written \<^verbatim>\<open>{}\<close>
  inherits: eleven functions, and the accessor \<^verbatim>\<open>__proto__\<close>, which reads as the
  prototype of the object it is read on (for such a hash, \<^verbatim>\<open>Object.prototype\<close>).
\<close>

definition object_prototype_functions :: "string list" where
  "object_prototype_functions =
     [''constructor'', ''toString'', ''toLocaleString'', ''valueOf'', ''hasOwnProperty'',
      ''isPrototypeOf'', ''propertyIsEnumerable'', ''__defineGetter__'',
      ''__defineSetter__'', ''__lookupGetter__'', ''__lookupSetter__'']"

definition inherited_name :: "string \<Rightarrow> bool" where
  "inherited_name k \<longleftrightarrow> k = ''__proto__'' \<or> k \<in> set object_prototype_functions"

definition object_prototype_get :: "string \<Rightarrow> val" where
  "object_prototype_get k =
     (if k = ''__proto__'' then VPrototype
      else if k \<in> set object_prototype_functions then VInherited k
      else VUndef)"

text \<open>
  \<^verbatim>\<open>hash[k]\<close> on a hash whose prototype is \<^verbatim>\<open>Object.prototype\<close>: the hash's
  own entry for \<open>k\<close>, and without one what it inherits.
\<close>

definition hash_get :: "hash \<Rightarrow> string \<Rightarrow> val" where
  "hash_get m k = (case map_of m k of None \<Rightarrow> object_prototype_get k | Some v \<Rightarrow> v)"

text \<open>
  An object that is written to under names of any kind (the paths cache of a manager
  type) can be given another prototype by the write itself, so it carries its prototype
  with its own entries. \<open>empty_object\<close> is \<^verbatim>\<open>{}\<close>.

  \<open>object_get\<close> is \<^verbatim>\<open>obj[k]\<close>: the own entry, and without one what the
  prototype gives: nothing when the prototype is \<^verbatim>\<open>null\<close>; what a hash that is
  the prototype reads for \<open>k\<close>, where \<^verbatim>\<open>__proto__\<close> is the accessor again,
  which returns the prototype of the object read; and for any other prototype the
  members of \<^verbatim>\<open>Object.prototype\<close> (the members of its own that a prototype which
  is an array, a function, an event or a state adds are not modelled).

  \<open>object_assign\<close> is \<^verbatim>\<open>obj[k] = v\<close>. Every name makes an own property, except
  \<^verbatim>\<open>__proto__\<close> while the object inherits the accessor of that name (it has no own
  entry of the name, its prototype is not \<^verbatim>\<open>null\<close>, and a hash that is its
  prototype has no entry of the name either): then the setter runs, which makes an
  object or \<^verbatim>\<open>null\<close> the prototype and drops any other value (undefined, a
  boolean, a number, a string).
\<close>

record object =
  own :: hash
  proto :: val

definition empty_object :: object where
  "empty_object = \<lparr>own = [], proto = VPrototype\<rparr>"

fun is_primitive :: "val \<Rightarrow> bool" where
  "is_primitive VUndef = True"
| "is_primitive (VBool b) = True"
| "is_primitive (VNum n) = True"
| "is_primitive (VStr s) = True"
| "is_primitive _ = False"

definition object_get :: "object \<Rightarrow> string \<Rightarrow> val" where
  "object_get obj k =
     (case map_of (own obj) k of
        Some v \<Rightarrow> v
      | None \<Rightarrow>
          (case proto obj of
             VNull \<Rightarrow> VUndef
           | VObj ps \<Rightarrow>
               if k = ''__proto__'' \<and> map_of ps k = None then VObj ps else hash_get ps k
           | p \<Rightarrow> if k = ''__proto__'' then p else object_prototype_get k))"

definition proto_accessor_in_reach :: "object \<Rightarrow> bool" where
  "proto_accessor_in_reach obj \<longleftrightarrow>
     map_of (own obj) ''__proto__'' = None \<and>
     (case proto obj of
        VNull \<Rightarrow> False
      | VObj ps \<Rightarrow> map_of ps ''__proto__'' = None
      | _ \<Rightarrow> True)"

definition object_assign :: "object \<Rightarrow> string \<Rightarrow> val \<Rightarrow> object" where
  "object_assign obj k v =
     (if k = ''__proto__'' \<and> proto_accessor_in_reach obj
      then (if is_primitive v then obj else obj\<lparr>proto := v\<rparr>)
      else obj\<lparr>own := hash_put (own obj) k v\<rparr>)"

subsection \<open>State instances and the store\<close>

text \<open>
  The fields of a State instance. \<open>name\<close> is \<^verbatim>\<open>null\<close> (\<open>None\<close>) or a string:
  the class declares \<^verbatim>\<open>name: null\<close> and \<^verbatim>\<open>setupChild\<close> stores the property
  name. \<open>props\<close> holds the properties the object was declared with (methods,
  actions, child declarations, plain values), in the order \<^verbatim>\<open>for (name in this)\<close>
  visits them. The fields kept apart here are not repeated in it (\<^verbatim>\<open>this[name]\<close>
  for any name is \<open>this_get\<close> below). \<open>states\<close> is \<open>None\<close> while the property
  is undefined.
  \<open>eventTransitions\<close> is the hash \<^verbatim>\<open>get(this, 'eventTransitions') || {}\<close>
  evaluates to: the declared hash, or the empty one for an object that declares none
  (\<open>new_state\<close>). \<open>pathsCaches\<close> maps the guid of a manager type to the cache
  object of that type. \<open>listeners\<close> are the listeners registered through
  Ember.Evented, by event name, in registration order.

  \<^verbatim>\<open>path\<close> and \<^verbatim>\<open>isLeaf\<close> are declared with
  \<^verbatim>\<open>Ember.computed(function() { ... })\<close> and no dependent keys: the first read runs
  the function and stores its result on the object, every later read returns the stored
  result. \<open>path_cache\<close> and \<open>isLeaf_cache\<close> are these stored results
  (\<open>None\<close> before the first read).
\<close>

record state_obj =
  parentState :: "ref option"
  name :: "string option"
  container :: val
  props :: hash
  states :: "hash option"
  childStates :: "ref list"
  eventTransitions :: hash
  pathsCaches :: "(nat \<times> object) list"
  listeners :: "(string \<times> nat) list"
  path_cache :: "string option option"
  isLeaf_cache :: "bool option"

record heap =
  objs :: "ref \<Rightarrow> state_obj"
  next_ref :: ref

text \<open>\<^verbatim>\<open>set(obj, field, v)\<close> on the object at \<open>r\<close>.\<close>

definition upd :: "ref \<Rightarrow> (state_obj \<Rightarrow> state_obj) \<Rightarrow> heap \<Rightarrow> heap" where
  "upd r f h = h\<lparr>objs := (objs h)(r := f (objs h r))\<rparr>"

text \<open>
  The object \<^verbatim>\<open>create\<close> hands to \<^verbatim>\<open>init\<close>: the class defaults
  (\<^verbatim>\<open>parentState: null\<close>), the declared properties \<open>d\<close>, a declared
  \<^verbatim>\<open>states\<close> hash \<open>st\<close> and a declared \<^verbatim>\<open>eventTransitions\<close> hash
  \<open>et\<close> if any, and the \<^verbatim>\<open>name\<close> and \<^verbatim>\<open>container\<close> passed to
  \<^verbatim>\<open>create\<close>.
\<close>

definition new_state ::
  "hash \<Rightarrow> hash option \<Rightarrow> hash option \<Rightarrow> string option \<Rightarrow> val \<Rightarrow> state_obj" where
  "new_state d st et nm c =
     \<lparr>parentState = None, name = nm, container = c, props = d, states = st,
      childStates = [],
      eventTransitions = (case et of None \<Rightarrow> [] | Some e \<Rightarrow> e),
      pathsCaches = [], listeners = [],
      path_cache = None, isLeaf_cache = None\<rparr>"

text \<open>
  A state manager, as far as this file uses one: its identity, the identity of its
  constructor (\<^verbatim>\<open>stateManager.constructor\<close>, its class), and the calls of
  \<^verbatim>\<open>stateManager.transitionTo\<close> it has received, each with its argument list.
\<close>

record manager =
  mgr_id :: nat
  ctor :: nat
  transitionTo_calls :: "val list list"

text \<open>
  \<^verbatim>\<open>Ember.guidFor(obj)\<close> gives every object one stable identifier of its own, the
  string \<^verbatim>\<open>ember\<close> followed by a number; here it is that number, which is the
  identity of the constructor it is applied to. A guid names no member of
  \<^verbatim>\<open>Object.prototype\<close>, so \<^verbatim>\<open>pathsCaches[guid]\<close> reads an own entry or
  undefined.
\<close>

definition guidFor :: "nat \<Rightarrow> nat" where
  "guidFor c = c"

subsection \<open>path\<close>

text \<open>
  \<^verbatim>\<open>
  path: Ember.computed(function() {
    var parentPath = get(this, 'parentState.path'),
        path = get(this, 'name');
    if (parentPath) { path = parentPath + '.' + path; }
    return path;
  })
  \<close>
  \<open>js_string\<close> is the string \<^verbatim>\<open>+\<close> appends for a name: \<^verbatim>\<open>'a.' + null\<close> is
  \<^verbatim>\<open>'a.null'\<close>. \<open>path_fn\<close> is the function's body, given what
  \<^verbatim>\<open>get(this, 'parentState.path')\<close> returned (\<open>None\<close> for undefined or null).
  \<open>get_path\<close> is the read \<^verbatim>\<open>get(this, 'path')\<close> of the computed property: it
  returns the stored result if there is one, and otherwise reads the parent's path the
  same way, runs the body and stores the result. On a cyclic parent chain the read does
  not return (\<open>None\<close>).
\<close>

definition js_string :: "string option \<Rightarrow> string" where
  "js_string v = (case v of None \<Rightarrow> ''null'' | Some s \<Rightarrow> s)"

definition path_fn :: "string option \<Rightarrow> string option \<Rightarrow> string option" where
  "path_fn parentPath nm =
     (case parentPath of
        Some pp \<Rightarrow> if pp \<noteq> [] then Some (pp @ ''.'' @ js_string nm) else nm
      | None \<Rightarrow> nm)"

partial_function (option) get_path :: "heap \<Rightarrow> ref \<Rightarrow> (string option \<times> heap) option" where
  "get_path h this =
     (case path_cache (objs h this) of
        Some v \<Rightarrow> Some (v, h)
      | None \<Rightarrow>
          Option.bind
            (case parentState (objs h this) of
               None \<Rightarrow> Some (None, h)
             | Some p \<Rightarrow> get_path h p)
            (\<lambda>r. let path = path_fn (fst r) (name (objs (snd r) this))
                 in Some (path, upd this (\<lambda>s. s\<lparr>path_cache := Some path\<rparr>) (snd r))))"

subsection \<open>isLeaf\<close>

text \<open>
  \<^verbatim>\<open>
  isLeaf: Ember.computed(function() {
    return !this.get('childStates').length;
  })
  \<close>
  \<open>isLeaf_fn\<close> is the function's body, \<open>get_isLeaf\<close> the read of the computed
  property.
\<close>

definition isLeaf_fn :: "state_obj \<Rightarrow> bool" where
  "isLeaf_fn this = (length (childStates this) = 0)"

definition get_isLeaf :: "heap \<Rightarrow> ref \<Rightarrow> bool \<times> heap" where
  "get_isLeaf h this =
     (case isLeaf_cache (objs h this) of
        Some b \<Rightarrow> (b, h)
      | None \<Rightarrow>
          (let b = isLeaf_fn (objs h this)
           in (b, upd this (\<lambda>s. s\<lparr>isLeaf_cache := Some b\<rparr>) h)))"

subsection \<open>trigger\<close>

text \<open>
  \<^verbatim>\<open>
  trigger(name) {
    if (this[name]) {
      this[name].apply(this, [].slice.call(arguments, 1));
    }
    this._super.apply(this, arguments);
  }
  \<close>
  \<open>this_get\<close> is \<^verbatim>\<open>this[name]\<close>, a plain property read on a State instance. It
  finds, in this order: the fields the class declares or \<^verbatim>\<open>init\<close> and
  \<^verbatim>\<open>setupChild\<close> set (\<^verbatim>\<open>childStates\<close> is an array, \<^verbatim>\<open>eventTransitions\<close>,
  \<^verbatim>\<open>states\<close> and \<^verbatim>\<open>pathsCaches\<close> are objects); the properties the object was
  declared with; the computed properties \<^verbatim>\<open>path\<close> and \<^verbatim>\<open>isLeaf\<close>, which a
  plain read (one that does not go through \<^verbatim>\<open>get\<close>) finds as the property object
  \<^verbatim>\<open>Ember.computed\<close> returned, in the Ember versions the file is written for; the
  methods the instance inherits from State, Ember.Evented and Ember.Object
  (\<open>state_methods\<close>; Ember's private members are not listed) and the flags
  \<^verbatim>\<open>isDestroyed\<close> and \<^verbatim>\<open>isDestroying\<close>, false on a live object; and the
  members of \<^verbatim>\<open>Object.prototype\<close>. As a value, a cache object is the hash of its
  own entries (\<open>object_of\<close>), under the guid as Ember writes it (\<open>guid_key\<close>).

  What a call of \<^verbatim>\<open>trigger\<close> does is the list of calls it makes, in order:
  \<open>Invoked f args\<close> is the call of the property value \<open>f\<close> with the arguments after
  the name (recorded, not run, also where \<open>f\<close> is a method the instance inherits),
  and \<open>Notified l args\<close> is Ember.Evented's call of the listener \<open>l\<close>.
  \<^verbatim>\<open>this._super\<close> is \<^verbatim>\<open>Ember.Evented.trigger\<close>, which calls every listener
  registered for the name once, the one registered last first, with the arguments
  after the name (\<open>evented_trigger\<close>). Functions, classes among them, have
  \<^verbatim>\<open>apply\<close>; on any other truthy value \<^verbatim>\<open>this[name].apply\<close> is undefined
  and calling it raises a TypeError (objects that carry an \<^verbatim>\<open>apply\<close> of their
  own are not modelled).
\<close>

datatype effect = Invoked val "val list" | Notified nat "val list"

fun callable :: "val \<Rightarrow> bool" where
  "callable (VFun f) = True"
| "callable (VTransition t) = True"
| "callable (VClass d) = True"
| "callable (VInherited k) = True"
| "callable _ = False"

definition state_methods :: "string list" where
  "state_methods =
     [''trigger'', ''init'', ''setPathsCache'', ''getPathsCache'', ''setupChild'',
      ''lookupEventTransition'',
      ''on'', ''one'', ''off'', ''has'',
      ''get'', ''set'', ''getProperties'', ''setProperties'', ''getWithDefault'',
      ''incrementProperty'', ''decrementProperty'', ''toggleProperty'', ''cacheFor'',
      ''beginPropertyChanges'', ''endPropertyChanges'', ''propertyWillChange'',
      ''propertyDidChange'', ''notifyPropertyChange'', ''addObserver'',
      ''removeObserver'', ''hasObserverFor'', ''destroy'', ''willDestroy'']"

definition object_of :: "object \<Rightarrow> val" where
  "object_of obj = VObj (own obj)"

fun decimal :: "nat \<Rightarrow> string" where
  "decimal n =
     (if n < 10 then [char_of (48 + n)]
      else decimal (n div 10) @ [char_of (48 + n mod 10)])"

declare decimal.simps [simp del]

definition guid_key :: "nat \<Rightarrow> string" where
  "guid_key g = ''ember'' @ decimal g"

definition this_get :: "state_obj \<Rightarrow> string \<Rightarrow> val" where
  "this_get this nm =
     (if nm = ''parentState'' then
        (case parentState this of None \<Rightarrow> VNull | Some p \<Rightarrow> VState p)
      else if nm = ''name'' then
        (case name this of None \<Rightarrow> VNull | Some s \<Rightarrow> VStr s)
      else if nm = ''container'' then container this
      else if nm = ''states'' then
        (case states this of None \<Rightarrow> VUndef | Some sts \<Rightarrow> VObj sts)
      else if nm = ''childStates'' then VArr (map VState (childStates this))
      else if nm = ''eventTransitions'' then VObj (eventTransitions this)
      else if nm = ''pathsCaches'' then
        VObj (map (\<lambda>e. (guid_key (fst e), object_of (snd e))) (pathsCaches this))
      else
        (case map_of (props this) nm of
           Some v \<Rightarrow> v
         | None \<Rightarrow>
             if nm = ''path'' \<or> nm = ''isLeaf'' then VComputed nm
             else if nm \<in> set state_methods then VInherited nm
             else if nm = ''isDestroyed'' \<or> nm = ''isDestroying'' then VBool False
             else object_prototype_get nm))"

definition evented_trigger :: "state_obj \<Rightarrow> string \<Rightarrow> val list \<Rightarrow> effect list" where
  "evented_trigger this nm args =
     map (\<lambda>l. Notified (snd l) args) (rev (filter (\<lambda>l. fst l = nm) (listeners this)))"

definition trigger :: "state_obj \<Rightarrow> string \<Rightarrow> val list \<Rightarrow> error + effect list" where
  "trigger this nm args =
     (let f = this_get this nm in
      if truthy f then
        (if callable f then Inr (Invoked f args # evented_trigger this nm args)
         else Inl TypeError)
      else Inr (evented_trigger this nm args))"

subsection \<open>init and setupChild\<close>

text \<open>
  \<^verbatim>\<open>value.transitionTarget\<close> for a truthy value: the marker of a transition
  function, the property of that name of an object, undefined otherwise.
\<close>

fun transitionTarget_of :: "heap \<Rightarrow> val \<Rightarrow> val" where
  "transitionTarget_of h (VTransition t) = VStr t"
| "transitionTarget_of h (VObj ps) = hash_get ps ''transitionTarget''"
| "transitionTarget_of h (VEvent ps) = hash_get ps ''transitionTarget''"
| "transitionTarget_of h (VState r) = hash_get (props (objs h r)) ''transitionTarget''"
| "transitionTarget_of h _ = VUndef"

text \<open>
  The end of \<^verbatim>\<open>setupChild\<close>, once \<^verbatim>\<open>instance\<close> is a State:
  \<^verbatim>\<open>
    set(instance, 'parentState', this);
    get(this, 'childStates').pushObject(instance);
    states[name] = instance;
    return instance;
  \<close>
\<close>

definition attach :: "ref \<Rightarrow> hash \<Rightarrow> string \<Rightarrow> ref \<Rightarrow> heap \<Rightarrow> val \<times> hash \<times> heap" where
  "attach this sts nm inst h =
     (let h1 = upd inst (\<lambda>s. s\<lparr>parentState := Some this\<rparr>) h;
          h2 = upd this (\<lambda>s. s\<lparr>childStates := childStates s @ [inst]\<rparr>) h1
      in (VState inst, hash_put sts nm (VState inst), h2))"

text \<open>
  \<^verbatim>\<open>
  init() {
    var states = get(this, 'states');
    set(this, 'childStates', Ember.A());
    set(this, 'eventTransitions', get(this, 'eventTransitions') || {});
    var name, value, transitionTarget;
    if (!states) {
      states = {};
      for (name in this) {
        if (name === "constructor") { continue; }
        if (value = this[name]) {
          if (transitionTarget = value.transitionTarget) {
            this.eventTransitions[name] = transitionTarget;
          }
          this.setupChild(states, name, value);
        }
      }
      set(this, 'states', states);
    } else {
      for (name in states) {
        this.setupChild(states, name, states[name]);
      }
    }
    set(this, 'pathsCaches', {});
  }

  setupChild(states, name, value) {
    if (!value) { return false; }
    let instance;
    if (value instanceof State) {
      set(value, 'name', name);
      instance = value;
      instance.container = this.container;
    } else if (State.detect(value)) {
      instance = value.create({ name: name, container: this.container });
    }
    if (instance instanceof State) { ... see attach ... }
  }
  \<close>
  \<open>setupChild\<close> returns the value the method returns (\<^verbatim>\<open>false\<close>, the
  instance, or undefined), the \<^verbatim>\<open>states\<close> hash it was given as it is afterwards,
  and the store. \<open>register_transition\<close> is the inner \<^verbatim>\<open>if\<close> of the first loop.
  \<open>create d st et nm c\<close> is \<^verbatim>\<open>State.create(...)\<close>, or \<^verbatim>\<open>create\<close> of a
  subclass, for declared properties \<open>d\<close>, \<^verbatim>\<open>states\<close> hash \<open>st\<close> and
  \<^verbatim>\<open>eventTransitions\<close> hash \<open>et\<close>: Ember allocates the object and calls its
  \<^verbatim>\<open>init\<close>. A class met as a child declaration (\<open>VClass d\<close>) declares
  ordinary properties only. \<open>init this ps st\<close> is \<^verbatim>\<open>init\<close> on an
  object whose enumerable properties are \<open>ps\<close> and whose \<^verbatim>\<open>states\<close> is
  \<open>st\<close> (\<open>create\<close> passes the new object's own); its third line,
  \<^verbatim>\<open>get(this, 'eventTransitions') || {}\<close>, is the value the field has from
  \<open>new_state\<close> on. \<open>scan_props\<close> is the \<^verbatim>\<open>for (name in this)\<close> loop and
  \<open>scan_states\<close> the \<^verbatim>\<open>for (name in states)\<close> loop, over the entries still
  to visit. The second loop writes only the key it is visiting, and keys are distinct,
  so \<^verbatim>\<open>states[name]\<close> is the value the entry had at the start. In the second
  branch \<^verbatim>\<open>this.states\<close> is the very hash the loop writes to. A class nested in
  a declaration is a smaller value than the declaration, which is why \<^verbatim>\<open>create\<close>
  inside \<^verbatim>\<open>setupChild\<close> ends (\<open>hsize\<close> measures a declaration).
\<close>

definition register_transition :: "ref \<Rightarrow> string \<Rightarrow> val \<Rightarrow> heap \<Rightarrow> heap" where
  "register_transition this nm v h =
     (let transitionTarget = transitionTarget_of h v in
      if truthy transitionTarget
      then upd this
             (\<lambda>s. s\<lparr>eventTransitions := hash_put (eventTransitions s) nm transitionTarget\<rparr>) h
      else h)"

definition hsize :: "hash \<Rightarrow> nat" where
  "hsize d = size_list (size_prod (\<lambda>_. 0) size) d"

function (sequential)
    setupChild :: "ref \<Rightarrow> hash \<Rightarrow> string \<Rightarrow> val \<Rightarrow> heap \<Rightarrow> val \<times> hash \<times> heap"
and create ::
      "hash \<Rightarrow> hash option \<Rightarrow> hash option \<Rightarrow> string option \<Rightarrow> val \<Rightarrow> heap \<Rightarrow> ref \<times> heap"
and init :: "ref \<Rightarrow> hash \<Rightarrow> hash option \<Rightarrow> heap \<Rightarrow> heap"
and scan_props :: "ref \<Rightarrow> hash \<Rightarrow> hash \<Rightarrow> heap \<Rightarrow> hash \<times> heap"
and scan_states :: "ref \<Rightarrow> hash \<Rightarrow> hash \<Rightarrow> heap \<Rightarrow> hash \<times> heap"
where
  "setupChild this sts nm v h =
     (if \<not> truthy v then (VBool False, sts, h)
      else (case v of
          VState i \<Rightarrow>
            attach this sts nm i
              (upd i (\<lambda>s. s\<lparr>container := container (objs h this)\<rparr>)
                 (upd i (\<lambda>s. s\<lparr>name := Some nm\<rparr>) h))
        | VClass d \<Rightarrow>
            (case create d None None (Some nm) (container (objs h this)) h of
               (i, h1) \<Rightarrow> attach this sts nm i h1)
        | _ \<Rightarrow> (VUndef, sts, h)))"
| "create d st et nm c h =
     (let r = next_ref h;
          h1 = h\<lparr>objs := (objs h)(r := new_state d st et nm c), next_ref := Suc r\<rparr>
      in (r, init r d st h1))"
| "init this ps st h =
     (let h1 = upd this (\<lambda>s. s\<lparr>childStates := []\<rparr>) h;
          h2 = (case st of
                  None \<Rightarrow>
                    (case scan_props this ps [] h1 of
                       (sts, h') \<Rightarrow> upd this (\<lambda>s. s\<lparr>states := Some sts\<rparr>) h')
                | Some sts0 \<Rightarrow>
                    (case scan_states this sts0 sts0 h1 of
                       (sts, h') \<Rightarrow> upd this (\<lambda>s. s\<lparr>states := Some sts\<rparr>) h'))
      in upd this (\<lambda>s. s\<lparr>pathsCaches := []\<rparr>) h2)"
| "scan_props this [] sts h = (sts, h)"
| "scan_props this ((nm, v) # ps) sts h =
     (if nm = ''constructor'' then scan_props this ps sts h
      else if truthy v then
        (case setupChild this sts nm v (register_transition this nm v h) of
           (r, sts1, h2) \<Rightarrow> scan_props this ps sts1 h2)
      else scan_props this ps sts h)"
| "scan_states this [] sts h = (sts, h)"
| "scan_states this ((nm, v) # rest) sts h =
     (case setupChild this sts nm v h of
        (r, sts1, h1) \<Rightarrow> scan_states this rest sts1 h1)"
  by pat_completeness auto

termination
  apply (relation "measure (\<lambda>x. case x of
      Inl (Inl (this, sts, nm, v, h)) \<Rightarrow> 3 * size v
    | Inl (Inr (d, st, et, nm, c, h)) \<Rightarrow>
        3 * (hsize d + (case st of None \<Rightarrow> 0 | Some x \<Rightarrow> hsize x + 1)) + 2
    | Inr (Inl (this, ps, st, h)) \<Rightarrow>
        3 * (hsize ps + (case st of None \<Rightarrow> 0 | Some x \<Rightarrow> hsize x + 1)) + 1
    | Inr (Inr (Inl (this, ps, sts, h))) \<Rightarrow> 3 * hsize ps
    | Inr (Inr (Inr (this, ps, sts, h))) \<Rightarrow> 3 * hsize ps)")
  apply (simp_all add: hsize_def)
  done

declare setupChild.simps [simp del] create.simps [simp del] init.simps [simp del]

subsection \<open>setPathsCache and getPathsCache\<close>

text \<open>
  \<^verbatim>\<open>
  setPathsCache(stateManager, path, transitions) {
    let stateManagerTypeGuid = Ember.guidFor(stateManager.constructor);
    let pathsCaches = get(this, 'pathsCaches');
    let pathsCacheForManager = pathsCaches[stateManagerTypeGuid] || {};
    pathsCacheForManager[path] = transitions;
    pathsCaches[stateManagerTypeGuid] = pathsCacheForManager;
  }

  getPathsCache(stateManager, path) {
    let stateManagerTypeGuid = Ember.guidFor(stateManager.constructor);
    let pathsCaches = this.get('pathsCaches');
    let pathsCacheForManager = pathsCaches[stateManagerTypeGuid] || {};
    return pathsCacheForManager[path];
  }
  \<close>
  Both work on the node's own \<^verbatim>\<open>pathsCaches\<close> only. An entry of
  \<^verbatim>\<open>pathsCaches\<close> is an object, which is truthy, so \<^verbatim>\<open>|| {}\<close> takes the
  empty object exactly when the key is absent. \<open>getPathsCache\<close> returns the value the
  method returns and the node as the call leaves it.
\<close>

definition setPathsCache :: "state_obj \<Rightarrow> manager \<Rightarrow> string \<Rightarrow> val \<Rightarrow> state_obj" where
  "setPathsCache this stateManager path transitions =
     (let stateManagerTypeGuid = guidFor (ctor stateManager);
          pathsCacheForManager =
            (case map_of (pathsCaches this) stateManagerTypeGuid of
               None \<Rightarrow> empty_object | Some c \<Rightarrow> c);
          pathsCacheForManager' = object_assign pathsCacheForManager path transitions
      in this\<lparr>pathsCaches :=
                 hash_put (pathsCaches this) stateManagerTypeGuid pathsCacheForManager'\<rparr>)"

definition getPathsCache :: "state_obj \<Rightarrow> manager \<Rightarrow> string \<Rightarrow> val \<times> state_obj" where
  "getPathsCache this stateManager path =
     (let stateManagerTypeGuid = guidFor (ctor stateManager);
          pathsCacheForManager =
            (case map_of (pathsCaches this) stateManagerTypeGuid of
               None \<Rightarrow> empty_object | Some c \<Rightarrow> c)
      in (object_get pathsCacheForManager path, this))"

text \<open>
  \<open>cache_of\<close> is \<^verbatim>\<open>pathsCaches[stateManagerTypeGuid] || {}\<close>, the cache object
  both methods work on. \<open>plain_without obj k\<close>: the object has no entry of its own for
  \<open>k\<close> and still has \<^verbatim>\<open>Object.prototype\<close> for prototype.
\<close>

definition cache_of :: "state_obj \<Rightarrow> manager \<Rightarrow> object" where
  "cache_of this stateManager =
     (case map_of (pathsCaches this) (guidFor (ctor stateManager)) of
        None \<Rightarrow> empty_object | Some c \<Rightarrow> c)"

definition plain_without :: "object \<Rightarrow> string \<Rightarrow> bool" where
  "plain_without obj k \<longleftrightarrow> map_of (own obj) k = None \<and> proto obj = VPrototype"


subsection \<open>lookupEventTransition\<close>

text \<open>
  \<^verbatim>\<open>
  lookupEventTransition(name) {
    var path, state = this;
    while(state && !path) {
      path = state.eventTransitions[name];
      state = state.get('parentState');
    }
    return path;
  }
  \<close>
  \<open>lookup_loop\<close> is the loop with its two variables. On a cyclic parent chain without
  a truthy entry the loop does not return (\<open>None\<close>).
\<close>

partial_function (option) lookup_loop :: "heap \<Rightarrow> string \<Rightarrow> ref option \<Rightarrow> val \<Rightarrow> val option" where
  "lookup_loop h nm state path =
     (case state of
        None \<Rightarrow> Some path
      | Some s \<Rightarrow>
          if truthy path then Some path
          else lookup_loop h nm (parentState (objs h s))
                 (hash_get (eventTransitions (objs h s)) nm))"

definition lookupEventTransition :: "heap \<Rightarrow> ref \<Rightarrow> string \<Rightarrow> val option" where
  "lookupEventTransition h this nm = lookup_loop h nm (Some this) VUndef"

subsection \<open>State.transitionTo\<close>

text \<open>
  \<^verbatim>\<open>
  transitionTo(target) {
    var transitionFunction = function(stateManager, contextOrEvent) {
      var contexts = [],
          Event = Ember.$ && Ember.$.Event;
      if (contextOrEvent && (Event && contextOrEvent instanceof Event)) {
        if (contextOrEvent.hasOwnProperty('contexts')) {
          contexts = contextOrEvent.contexts.slice();
        }
      }
      else {
        contexts = [].slice.call(arguments, 1);
      }
      contexts.unshift(target);
      stateManager.transitionTo.apply(stateManager, contexts);
    };
    transitionFunction.transitionTarget = target;
    return transitionFunction;
  }
  \<close>
  \<open>transitionFunction target stateManager args\<close> is a call of the returned function
  with \<open>args\<close> the arguments after \<^verbatim>\<open>stateManager\<close>; \<^verbatim>\<open>contextOrEvent\<close> is the
  first of them, or undefined. The call of \<^verbatim>\<open>stateManager.transitionTo\<close> is
  recorded in the manager with its arguments. The function has no \<^verbatim>\<open>return\<close>, so
  a call that finishes gives undefined. \<^verbatim>\<open>slice()\<close> copies an array; a
  \<^verbatim>\<open>contexts\<close> property holding anything else ends in a TypeError (at
  \<^verbatim>\<open>slice\<close>, or for a string at \<^verbatim>\<open>unshift\<close>).
\<close>

definition transitionTo :: "string \<Rightarrow> val" where
  "transitionTo target = VTransition target"

fun instanceof_Event :: "val \<Rightarrow> bool" where
  "instanceof_Event (VEvent ps) = True"
| "instanceof_Event _ = False"

fun own_props :: "val \<Rightarrow> hash" where
  "own_props (VEvent ps) = ps"
| "own_props (VObj ps) = ps"
| "own_props _ = []"

definition forward :: "manager \<Rightarrow> val list \<Rightarrow> error + (val \<times> manager)" where
  "forward stateManager contexts =
     Inr (VUndef,
          stateManager\<lparr>transitionTo_calls := transitionTo_calls stateManager @ [contexts]\<rparr>)"

definition transitionFunction :: "string \<Rightarrow> manager \<Rightarrow> val list \<Rightarrow> error + (val \<times> manager)" where
  "transitionFunction target stateManager args =
     (let contextOrEvent = (case args of [] \<Rightarrow> VUndef | x # rest \<Rightarrow> x) in
      if truthy contextOrEvent \<and> instanceof_Event contextOrEvent then
        (case map_of (own_props contextOrEvent) ''contexts'' of
           None \<Rightarrow> forward stateManager (VStr target # [])
         | Some (VArr cs) \<Rightarrow> forward stateManager (VStr target # cs)
         | Some _ \<Rightarrow> Inl TypeError)
      else forward stateManager (VStr target # args))"

subsection \<open>Parent chains\<close>

text \<open>
  \<open>is_chain h [n, p, ..., root]\<close>: each node's \<^verbatim>\<open>parentState\<close> is the next one,
  and the last has none. \<open>entries\<close> are the values \<^verbatim>\<open>eventTransitions[name]\<close>
  reads along a chain. \<open>first_truthy_or_last\<close> is the first truthy value of a list,
  and the last value when none is truthy.
\<close>

fun is_chain :: "heap \<Rightarrow> ref list \<Rightarrow> bool" where
  "is_chain h [] = False"
| "is_chain h [r] = (parentState (objs h r) = None)"
| "is_chain h (r # r' # rs) = (parentState (objs h r) = Some r' \<and> is_chain h (r' # rs))"

definition entries :: "heap \<Rightarrow> ref list \<Rightarrow> string \<Rightarrow> val list" where
  "entries h rs nm = map (\<lambda>r. hash_get (eventTransitions (objs h r)) nm) rs"

fun first_truthy_or_last :: "val list \<Rightarrow> val" where
  "first_truthy_or_last [] = VUndef"
| "first_truthy_or_last [v] = v"
| "first_truthy_or_last (v # w # vs) = (if truthy v then v else first_truthy_or_last (w # vs))"

subsection \<open>The specification's wording, to compare with\<close>

text \<open>
  \<open>spec_nearest_entry\<close>: the entry for the event of the nearest node on the chain that
  has such an entry, undefined when no node has one. \<open>spec_contexts\<close>: the contexts of
  a UI event carrying its own contexts list, and otherwise all the arguments after the
  manager.
\<close>

fun spec_nearest_entry :: "heap \<Rightarrow> ref list \<Rightarrow> string \<Rightarrow> val" where
  "spec_nearest_entry h [] nm = VUndef"
| "spec_nearest_entry h (r # rs) nm =
     (case map_of (eventTransitions (objs h r)) nm of
        Some v \<Rightarrow> v
      | None \<Rightarrow> spec_nearest_entry h rs nm)"

definition spec_contexts :: "val list \<Rightarrow> val list" where
  "spec_contexts args =
     (case args of
        [] \<Rightarrow> args
      | x # rest \<Rightarrow>
          (if instanceof_Event x then
             (case map_of (own_props x) ''contexts'' of
                Some (VArr cs) \<Rightarrow> cs
              | _ \<Rightarrow> args)
           else args))"

subsection \<open>Relations between stores\<close>

text \<open>
  \<open>frame h h'\<close>: no object allocated in \<open>h\<close> has other properties or other
  \<^verbatim>\<open>eventTransitions\<close> in \<open>h'\<close>; \<open>frame_but this\<close> leaves the
  \<^verbatim>\<open>eventTransitions\<close> of \<open>this\<close> open. \<open>same_wiring\<close>: names and parents are
  the same. \<open>parent_in_children\<close>: every node whose \<^verbatim>\<open>parentState\<close> is set is in
  the \<^verbatim>\<open>childStates\<close> of the (allocated) node it designates. \<open>reachable\<close>: the
  stores that \<^verbatim>\<open>create\<close> (with its \<^verbatim>\<open>init\<close>) and \<^verbatim>\<open>setupChild\<close> build
  from the empty one.
\<close>

definition frame :: "heap \<Rightarrow> heap \<Rightarrow> bool" where
  "frame h h' \<longleftrightarrow> next_ref h \<le> next_ref h' \<and>
     (\<forall>x < next_ref h. props (objs h' x) = props (objs h x)
        \<and> eventTransitions (objs h' x) = eventTransitions (objs h x))"


definition same_wiring :: "heap \<Rightarrow> heap \<Rightarrow> bool" where
  "same_wiring h h' \<longleftrightarrow>
     (\<forall>x. name (objs h' x) = name (objs h x)
        \<and> parentState (objs h' x) = parentState (objs h x))"


definition empty_heap :: heap where
  "empty_heap = \<lparr>objs = (\<lambda>r. new_state [] None None None VUndef), next_ref = 0\<rparr>"


subsection \<open>Example stores\<close>

text \<open>
  \<open>abn_tree\<close> is
  \<^verbatim>\<open>State.create({ go: State.transitionTo('x'),
     a: State.extend({ go: State.transitionTo('y'),
        b: State.extend({ n: State.extend({}) }) }) })\<close>:
  the root is 0, its descendants a, b and n are 1, 2 and 3.
  \<open>falsy_entry_tree\<close> is
  \<^verbatim>\<open>var c = State.create({ eventTransitions: { go: '' } });
  State.create({ eventTransitions: { go: 'x' }, child: c });\<close>:
  the child c is 0 and the root is 1. \<open>marker_states\<close> is
  \<^verbatim>\<open>State.create({ go: State.transitionTo(''),
     constructor: State.transitionTo('x'), stop: State.transitionTo('off') })\<close>.
  \<open>three_states\<close> holds three states created on their own. \<open>shared_child\<close> is
  \<^verbatim>\<open>var s = State.create(); State.create({ a: s }); State.create({ b: s });\<close>:
  the instance s is 0, the two states declaring it are 1 and 2.
  \<open>listening_state\<close> has a method \<^verbatim>\<open>enter\<close>, a property \<^verbatim>\<open>count: 5\<close>, and
  the listeners 1 for \<^verbatim>\<open>enter\<close>, 2 for \<^verbatim>\<open>count\<close>, 3 for \<^verbatim>\<open>exit\<close>, 4 for
  \<^verbatim>\<open>enter\<close> again and 5 for \<^verbatim>\<open>childStates\<close>, registered in this order.
\<close>

definition abn_tree :: heap where
  "abn_tree =
     snd (create
       [(''go'', transitionTo ''x''),
        (''a'', VClass [(''go'', transitionTo ''y''),
                        (''b'', VClass [(''n'', VClass [])])])]
       None None None VUndef empty_heap)"

definition falsy_entry_tree :: heap where
  "falsy_entry_tree =
     snd (create [(''child'', VState 0)] None (Some [(''go'', VStr ''x'')]) None VUndef
       (snd (create [] None (Some [(''go'', VStr '''')]) None VUndef empty_heap)))"


definition three_states :: heap where
  "three_states =
     snd (create [] None None None VUndef
       (snd (create [] None None None VUndef
          (snd (create [] None None None VUndef empty_heap)))))"


definition listening_state :: state_obj where
  "listening_state =
     (new_state [(''enter'', VFun 0), (''count'', VNum 5)] None None None VUndef)
       \<lparr>listeners := [(''enter'', 1), (''count'', 2), (''exit'', 3), (''enter'', 4),
                      (''childStates'', 5)]\<rparr>"

definition manager_a :: manager where
  "manager_a = \<lparr>mgr_id = 0, ctor = 7, transitionTo_calls = []\<rparr>"



section \<open>Properties\<close>

subsection \<open>Hashes\<close>



lemma object_prototype_get_undef: "\<not> inherited_name k \<Longrightarrow> object_prototype_get k = VUndef"
  by (simp add: inherited_name_def object_prototype_get_def)

lemma hash_get_absent:
  "map_of m k = None \<Longrightarrow> \<not> inherited_name k \<Longrightarrow> hash_get m k = VUndef"
  by (simp add: hash_get_def object_prototype_get_undef)

subsection \<open>The paths cache\<close>

lemma getPathsCache_cache_of: "fst (getPathsCache this m q) = object_get (cache_of this m) q"
  by (simp add: getPathsCache_def cache_of_def Let_def)







lemma cache_of_fresh: "pathsCaches this = [] \<Longrightarrow> cache_of this m = empty_object"
  by (simp add: cache_of_def)

lemma object_get_empty: "object_get empty_object k = object_prototype_get k"
  by (simp add: object_get_def empty_object_def object_prototype_get_def)



lemma three_states_fresh: "pathsCaches (objs three_states 0) = []"
  by (simp add: three_states_def empty_heap_def create.simps init.simps Let_def upd_def
        new_state_def)



text \<open>
  C10, as amended. \<^verbatim>\<open>getPathsCache\<close> leaves the node, and so its
  \<^verbatim>\<open>pathsCaches\<close>, as it was: a manager class without entries still has no cache
  object afterwards. For such a class the result is what the empty object reads under
  the path: undefined for every path that names no member of \<^verbatim>\<open>Object.prototype\<close>,
  and the inherited member otherwise. The same holds for a class whose cache object has
  no entry for the path and still has \<^verbatim>\<open>Object.prototype\<close> for prototype.
\<close>

theorem getPathsCache_readonly:
  "snd (getPathsCache this m p) = this
   \<and> pathsCaches (snd (getPathsCache this m p)) = pathsCaches this
   \<and> (map_of (pathsCaches this) (guidFor (ctor m)) = None \<longrightarrow>
        map_of (pathsCaches (snd (getPathsCache this m p))) (guidFor (ctor m)) = None
        \<and> fst (getPathsCache this m p) = object_prototype_get p
        \<and> (\<not> inherited_name p \<longrightarrow> fst (getPathsCache this m p) = VUndef))
   \<and> (\<forall>c. map_of (pathsCaches this) (guidFor (ctor m)) = Some c \<and> plain_without c p \<longrightarrow>
        fst (getPathsCache this m p) = object_prototype_get p
        \<and> (\<not> inherited_name p \<longrightarrow> fst (getPathsCache this m p) = VUndef))"
proof -
  have "plain_without c p \<Longrightarrow> object_get c p = object_prototype_get p" for c
    by (simp add: plain_without_def object_get_def object_prototype_get_def)
  then show ?thesis
    by (auto simp: getPathsCache_def Let_def object_get_empty object_prototype_get_undef)
qed

theorem getPathsCache_readonly_witness:
  "map_of (pathsCaches (objs three_states 0)) (guidFor (ctor manager_a)) = None
   \<and> \<not> inherited_name ''a.b''
   \<and> snd (getPathsCache (objs three_states 0) manager_a ''a.b'') = objs three_states 0
   \<and> map_of (pathsCaches (snd (getPathsCache (objs three_states 0) manager_a ''a.b'')))
        (guidFor (ctor manager_a)) = None
   \<and> fst (getPathsCache (objs three_states 0) manager_a ''a.b'') = VUndef
   \<and> fst (getPathsCache (setPathsCache (objs three_states 0) manager_a ''a'' (VNum 1))
        manager_a ''a.b'') = VUndef"
proof -
  have n: "\<not> inherited_name ''a.b''"
    by (simp add: inherited_name_def object_prototype_functions_def)
  have c: "map_of (pathsCaches (setPathsCache (objs three_states 0) manager_a ''a'' (VNum 1)))
             (guidFor (ctor manager_a)) = Some \<lparr>own = [(''a'', VNum 1)], proto = VPrototype\<rparr>"
    by (simp add: setPathsCache_def Let_def three_states_fresh object_assign_def
          empty_object_def)
  have p: "plain_without \<lparr>own = [(''a'', VNum 1)], proto = VPrototype\<rparr> ''a.b''"
    by (simp add: plain_without_def)
  show ?thesis
    using getPathsCache_readonly [of "objs three_states 0" manager_a "''a.b''"]
      getPathsCache_readonly [of "setPathsCache (objs three_states 0) manager_a ''a'' (VNum 1)"
        manager_a "''a.b''"] three_states_fresh n c p
    by (simp add: object_prototype_get_undef)
qed

text \<open>
  C10 as stated fails for a path that names a member of \<^verbatim>\<open>Object.prototype\<close>:
  on a new node, where nothing was ever set,
  \<^verbatim>\<open>getPathsCache(manager, 'toString')\<close> returns the function the empty object
  inherits, not undefined.
\<close>

theorem getPathsCache_counterexample:
  "pathsCaches (objs three_states 0) = []
   \<and> fst (getPathsCache (objs three_states 0) manager_a ''toString'') = VInherited ''toString''
   \<and> VInherited ''toString'' \<noteq> VUndef"
  by (simp add: getPathsCache_cache_of cache_of_fresh three_states_fresh
        object_get_empty object_prototype_get_def object_prototype_functions_def)

subsection \<open>What init and setupChild leave alone\<close>






lemma frame_next: "frame h h' \<Longrightarrow> next_ref h \<le> next_ref h'"
  by (simp add: frame_def)




lemma scan_props_skip:
  "nm = ''constructor'' \<or> \<not> truthy v \<Longrightarrow>
   scan_props this ((nm, v) # ps) sts h = scan_props this ps sts h"
  by auto



subsection \<open>Malformed child declarations\<close>

text \<open>
  C8. \<^verbatim>\<open>setupChild\<close> with a falsy value returns \<^verbatim>\<open>false\<close> and changes
  neither the \<^verbatim>\<open>states\<close> hash nor the store; with a truthy value that is neither
  a State instance nor a State class it returns undefined and changes neither. No
  branch of \<^verbatim>\<open>setupChild\<close> raises.
\<close>

theorem setupChild_skips_malformed:
  "(\<not> truthy v \<longrightarrow> setupChild this sts nm v h = (VBool False, sts, h))
   \<and> (truthy v \<and> (\<forall>i. v \<noteq> VState i) \<and> (\<forall>d. v \<noteq> VClass d)
        \<longrightarrow> setupChild this sts nm v h = (VUndef, sts, h))"
  by (cases v) (simp_all add: setupChild.simps)

theorem setupChild_skips_malformed_witness:
  "\<not> truthy VNull
   \<and> setupChild 0 [] ''a'' VNull three_states = (VBool False, [], three_states)
   \<and> truthy (VNum 5)
   \<and> setupChild 0 [] ''a'' (VNum 5) three_states = (VUndef, [], three_states)
   \<and> childStates (objs (snd (snd (setupChild 0 [] ''a'' (VNum 5) three_states))) 0)
       = childStates (objs three_states 0)"
  using setupChild_skips_malformed [of VNull 0 "[]" "''a''" three_states]
    setupChild_skips_malformed [of "VNum 5" 0 "[]" "''a''" three_states]
  by simp

subsection \<open>Parents and children\<close>









lemma three_states_eval:
  "next_ref three_states = 3"
  "childStates (objs three_states r) = []"
  "parentState (objs three_states r) = None"
  "isLeaf_cache (objs three_states r) = None"
  "pathsCaches (objs three_states r) = []"
  by (simp_all add: three_states_def empty_heap_def create.simps init.simps Let_def upd_def
        new_state_def)





subsection \<open>Event transitions along the parent chain\<close>

lemma lookup_loop_chain:
  "is_chain h (s # ns) \<Longrightarrow> \<not> truthy path \<Longrightarrow>
   lookup_loop h nm (Some s) path = Some (first_truthy_or_last (entries h (s # ns) nm))"
proof (induction ns arbitrary: s path)
  case Nil
  then show ?case
    by (simp add: lookup_loop.simps [of h nm "Some s"] lookup_loop.simps [of h nm None]
          entries_def)
next
  case (Cons r rs)
  let ?e = "hash_get (eventTransitions (objs h s)) nm"
  from Cons.prems have par: "parentState (objs h s) = Some r" and ch: "is_chain h (r # rs)"
    by simp_all
  have step: "lookup_loop h nm (Some s) path = lookup_loop h nm (Some r) ?e"
    using Cons.prems(2) par by (simp add: lookup_loop.simps [of h nm "Some s"])
  show ?case
  proof (cases "truthy ?e")
    case True
    then show ?thesis
      by (simp add: step lookup_loop.simps [of h nm "Some r"] entries_def)
  next
    case False
    from Cons.IH [OF ch False] show ?thesis
      using False by (simp add: step entries_def)
  qed
qed

lemma first_truthy_nearest:
  "rs \<noteq> [] \<Longrightarrow> \<not> inherited_name nm \<Longrightarrow>
   \<forall>r \<in> set rs. \<forall>v. map_of (eventTransitions (objs h r)) nm = Some v \<longrightarrow> truthy v \<Longrightarrow>
   first_truthy_or_last (entries h rs nm) = spec_nearest_entry h rs nm"
proof (induction rs)
  case Nil
  then show ?case by simp
next
  case (Cons r rs)
  show ?case
  proof (cases rs)
    case Nil
    with Cons.prems show ?thesis
      by (simp add: entries_def hash_get_def object_prototype_get_undef split: option.splits)
  next
    case (Cons r' rs')
    with Cons.IH Cons.prems
    have "first_truthy_or_last (entries h rs nm) = spec_nearest_entry h rs nm"
      by simp
    with Cons Cons.prems show ?thesis
      by (auto simp: entries_def hash_get_def object_prototype_get_undef split: option.splits)
  qed
qed

lemma first_truthy_head: "truthy v \<Longrightarrow> first_truthy_or_last (v # vs) = v"
  by (cases vs) simp_all

lemma inherited_truthy: "inherited_name k \<Longrightarrow> truthy (object_prototype_get k)"
  by (auto simp: inherited_name_def object_prototype_get_def)

lemma abn_tree_eval:
  "parentState (objs abn_tree 0) = None" "parentState (objs abn_tree (Suc 0)) = Some 0"
  "parentState (objs abn_tree 2) = Some (Suc 0)" "parentState (objs abn_tree 3) = Some 2"
  "name (objs abn_tree 0) = None" "name (objs abn_tree (Suc 0)) = Some ''a''"
  "name (objs abn_tree 2) = Some ''b''" "name (objs abn_tree 3) = Some ''n''"
  "eventTransitions (objs abn_tree 0) = [(''go'', VStr ''x'')]"
  "eventTransitions (objs abn_tree (Suc 0)) = [(''go'', VStr ''y'')]"
  "eventTransitions (objs abn_tree 2) = []"
  "eventTransitions (objs abn_tree 3) = []"
  "path_cache (objs abn_tree 0) = None" "path_cache (objs abn_tree (Suc 0)) = None"
  "path_cache (objs abn_tree 2) = None" "path_cache (objs abn_tree 3) = None"
  "childStates (objs abn_tree 0) = [Suc 0]" "childStates (objs abn_tree 3) = []"
  by (simp_all add: abn_tree_def empty_heap_def transitionTo_def create.simps init.simps
        setupChild.simps register_transition_def attach_def Let_def upd_def new_state_def)

lemma falsy_entry_tree_eval:
  "parentState (objs falsy_entry_tree (Suc 0)) = None"
  "parentState (objs falsy_entry_tree 0) = Some (Suc 0)"
  "eventTransitions (objs falsy_entry_tree (Suc 0)) = [(''go'', VStr ''x'')]"
  "eventTransitions (objs falsy_entry_tree 0) = [(''go'', VStr '''')]"
  by (simp_all add: falsy_entry_tree_def empty_heap_def create.simps init.simps
        setupChild.simps register_transition_def attach_def Let_def upd_def new_state_def
        hash_get_def object_prototype_get_def object_prototype_functions_def)

text \<open>
  C1, as amended. On a parent chain that ends in a root, \<^verbatim>\<open>lookupEventTransition\<close>
  returns, and what it returns is the value \<^verbatim>\<open>eventTransitions[e]\<close> reads at the
  nearest node on the chain where that value is truthy. The value read at a node is
  the node's own entry for the event, and without an own entry what the hash inherits
  from \<^verbatim>\<open>Object.prototype\<close>: so for an event named like a member of
  \<^verbatim>\<open>Object.prototype\<close> (\<^verbatim>\<open>toString\<close>, \<^verbatim>\<open>constructor\<close>, ...) a node without
  an own entry answers with the inherited member, and the search ends at the node it
  started from. An own entry that is falsy (the empty string, for one) is passed over
  like a missing one. When no node on the chain reads a truthy value the result is what
  the root's \<^verbatim>\<open>eventTransitions\<close> reads, undefined when the root has no entry.
  For an event that names no member of \<^verbatim>\<open>Object.prototype\<close>, where every entry on
  the chain is truthy, this is the entry of the nearest node that has one, and undefined
  when none has.
\<close>

theorem lookupEventTransition_nearest_truthy:
  "is_chain h (n # ns) \<Longrightarrow>
   lookupEventTransition h n e = Some (first_truthy_or_last (entries h (n # ns) e))
   \<and> (\<not> inherited_name e
        \<and> (\<forall>r \<in> set (n # ns). \<forall>v. map_of (eventTransitions (objs h r)) e = Some v \<longrightarrow> truthy v)
        \<longrightarrow> lookupEventTransition h n e = Some (spec_nearest_entry h (n # ns) e))
   \<and> (inherited_name e \<and> map_of (eventTransitions (objs h n)) e = None
        \<longrightarrow> lookupEventTransition h n e = Some (object_prototype_get e))"
proof -
  assume ch: "is_chain h (n # ns)"
  have 1: "lookupEventTransition h n e = Some (first_truthy_or_last (entries h (n # ns) e))"
    using lookup_loop_chain [OF ch, of VUndef e] by (simp add: lookupEventTransition_def)
  have 2: "first_truthy_or_last (entries h (n # ns) e) = spec_nearest_entry h (n # ns) e"
    if "\<not> inherited_name e"
      and "\<forall>r \<in> set (n # ns). \<forall>v. map_of (eventTransitions (objs h r)) e = Some v \<longrightarrow> truthy v"
    using first_truthy_nearest [of "n # ns" e h] that by simp
  have 3: "first_truthy_or_last (entries h (n # ns) e) = object_prototype_get e"
    if "inherited_name e" and "map_of (eventTransitions (objs h n)) e = None"
    using that by (simp add: entries_def hash_get_def first_truthy_head inherited_truthy)
  from 1 2 3 show ?thesis by simp
qed

theorem lookupEventTransition_nearest_truthy_witness:
  "is_chain abn_tree (3 # [2, 1, 0])
   \<and> lookupEventTransition abn_tree 3 ''go'' = Some (VStr ''y'')
   \<and> \<not> inherited_name ''go''
   \<and> spec_nearest_entry abn_tree (3 # [2, 1, 0]) ''go'' = VStr ''y''
   \<and> is_chain abn_tree (0 # [])
   \<and> lookupEventTransition abn_tree 0 ''go'' = Some (VStr ''x'')
   \<and> lookupEventTransition abn_tree 3 ''stop'' = Some VUndef
   \<and> inherited_name ''toString''
   \<and> map_of (eventTransitions (objs abn_tree 3)) ''toString'' = None
   \<and> lookupEventTransition abn_tree 3 ''toString'' = Some (VInherited ''toString'')"
proof -
  have ch: "is_chain abn_tree (3 # [2, 1, 0])" "is_chain abn_tree (0 # [])"
    by (simp_all add: abn_tree_eval)
  have n: "\<not> inherited_name ''go''" "\<not> inherited_name ''stop''" "inherited_name ''toString''"
    by (simp_all add: inherited_name_def object_prototype_functions_def)
  have v: "object_prototype_get ''go'' = VUndef" "object_prototype_get ''stop'' = VUndef"
    "object_prototype_get ''toString'' = VInherited ''toString''"
    by (simp_all add: object_prototype_get_def object_prototype_functions_def)
  show ?thesis
    using lookupEventTransition_nearest_truthy [of abn_tree 3 "[2, 1, 0]" "''go''"]
      lookupEventTransition_nearest_truthy [of abn_tree 0 "[]" "''go''"]
      lookupEventTransition_nearest_truthy [of abn_tree 3 "[2, 1, 0]" "''stop''"]
      lookupEventTransition_nearest_truthy [of abn_tree 3 "[2, 1, 0]" "''toString''"]
      ch n
    by (simp add: abn_tree_eval entries_def hash_get_def v)
qed

text \<open>
  C1 as stated fails where an entry is falsy: in \<open>falsy_entry_tree\<close> the child (0)
  has the entry \<^verbatim>\<open>go: ''\<close> and its parent (1) has \<^verbatim>\<open>go: 'x'\<close>. The nearest
  node with an entry for \<^verbatim>\<open>go\<close> is the child itself, but
  \<^verbatim>\<open>lookupEventTransition('go')\<close> on the child returns the parent's \<^verbatim>\<open>'x'\<close>.
\<close>

theorem lookupEventTransition_counterexample:
  "is_chain falsy_entry_tree [0, 1]
   \<and> map_of (eventTransitions (objs falsy_entry_tree 0)) ''go'' = Some (VStr '''')
   \<and> spec_nearest_entry falsy_entry_tree [0, 1] ''go'' = VStr ''''
   \<and> lookupEventTransition falsy_entry_tree 0 ''go'' = Some (VStr ''x'')
   \<and> lookupEventTransition falsy_entry_tree 0 ''go''
       \<noteq> Some (spec_nearest_entry falsy_entry_tree [0, 1] ''go'')"
  by (simp add: falsy_entry_tree_eval lookupEventTransition_def hash_get_def
        lookup_loop.simps [of falsy_entry_tree "''go''" "Some 0"]
        lookup_loop.simps [of falsy_entry_tree "''go''" "Some (Suc 0)"]
        lookup_loop.simps [of falsy_entry_tree "''go''" None])

subsection \<open>The path of a state\<close>

lemma get_path_root:
  "path_cache (objs h n) = None \<Longrightarrow> parentState (objs h n) = None \<Longrightarrow>
   get_path h n = Some (name (objs h n),
                        upd n (\<lambda>s. s\<lparr>path_cache := Some (name (objs h n))\<rparr>) h)"
  by (simp add: get_path.simps [of h n] path_fn_def Let_def)

lemma get_path_child:
  "path_cache (objs h n) = None \<Longrightarrow> parentState (objs h n) = Some p \<Longrightarrow>
   get_path h p = Some (pp, h1) \<Longrightarrow>
   get_path h n =
     Some (path_fn pp (name (objs h1 n)),
           upd n (\<lambda>s. s\<lparr>path_cache := Some (path_fn pp (name (objs h1 n)))\<rparr>) h1)"
  by (simp add: get_path.simps [of h n] Let_def)

lemma get_path_same_wiring:
  assumes "get_path h n = Some r"
  shows "same_wiring h (snd r)"
  using assms
proof (rule get_path.raw_induct [rotated, where P = "\<lambda>h n r. same_wiring h (snd r)"],
       goal_cases)
  case (1 gp h this ha)
  show ?case
  proof (cases "path_cache (objs h this)")
    case (Some v)
    with 1(2) show ?thesis by (auto simp: same_wiring_def)
  next
    case None
    show ?thesis
    proof (cases "parentState (objs h this)")
      case pn: None
      with None 1(2) show ?thesis
        by (auto simp: same_wiring_def upd_def Let_def)
    next
      case (Some p)
      with None 1(2) obtain r1 where g: "gp h p = Some r1"
        and ha: "ha = (path_fn (fst r1) (name (objs (snd r1) this)),
                   upd this (\<lambda>s. s\<lparr>path_cache :=
                      Some (path_fn (fst r1) (name (objs (snd r1) this)))\<rparr>) (snd r1))"
        by (auto simp: bind_eq_Some_conv Let_def)
      from 1(1) [OF g] have "same_wiring h (snd r1)" .
      with ha show ?thesis
        by (auto simp: same_wiring_def upd_def)
    qed
  qed
qed

lemma get_path_child_value:
  assumes "path_cache (objs h n) = None" "parentState (objs h n) = Some p"
    and "map_option fst (get_path h p) = Some pp"
  shows "map_option fst (get_path h n) = Some (path_fn pp (name (objs h n)))"
proof -
  from assms(3) obtain h1 where g: "get_path h p = Some (pp, h1)" by auto
  then have "same_wiring h h1" using get_path_same_wiring [of h p "(pp, h1)"] by simp
  then have "name (objs h1 n) = name (objs h n)" by (simp add: same_wiring_def)
  with get_path_child [OF assms(1,2) g] show ?thesis by simp
qed

lemma get_path_returns:
  "is_chain h (n # ns) \<Longrightarrow> \<exists>r. get_path h n = Some r"
proof (induction ns arbitrary: n)
  case Nil
  then show ?case
    by (cases "path_cache (objs h n)") (simp_all add: get_path.simps [of h n] Let_def)
next
  case (Cons p ps)
  then have par: "parentState (objs h n) = Some p" and "is_chain h (p # ps)" by simp_all
  with Cons.IH obtain pp h1 where g: "get_path h p = Some (pp, h1)" by fastforce
  show ?case
  proof (cases "path_cache (objs h n)")
    case None
    from get_path_child [OF None par g] show ?thesis by simp
  next
    case (Some v)
    then show ?thesis by (simp add: get_path.simps [of h n])
  qed
qed

lemma get_path_stored:
  "get_path h n = Some (v, h') \<Longrightarrow> path_cache (objs h' n) = Some v"
  by (cases "path_cache (objs h n)")
     (auto simp: get_path.simps [of h n] Let_def upd_def bind_eq_Some_conv)

lemma get_path_again:
  "get_path h n = Some (v, h') \<Longrightarrow> get_path h' n = Some (v, h')"
  using get_path_stored [of h n v h'] by (simp add: get_path.simps [of h' n])

text \<open>
  C2. \<^verbatim>\<open>path\<close> is a computed property: the claim is about the read that computes
  it, on a node whose path has not been read before, its parent chain being wired by
  then. That read gives the node's name when the node has no parent or when its
  parent's path is null or empty, and the parent's path, a dot and the name otherwise.
  For a chain root, a, b, n whose root has no name, none of whose paths has been read
  before, the path of n is \<^verbatim>\<open>"a.b." + n.name\<close>. On a parent chain that ends in a
  root the read returns, and reading again gives the same path.
\<close>

theorem path_derivation:
  "path_cache (objs h n) = None \<Longrightarrow>
     (parentState (objs h n) = None \<longrightarrow>
        map_option fst (get_path h n) = Some (name (objs h n)))
   \<and> (\<forall>p s. parentState (objs h n) = Some p
          \<and> map_option fst (get_path h p) = Some (Some s) \<and> s \<noteq> [] \<longrightarrow>
        map_option fst (get_path h n) = Some (Some (s @ ''.'' @ js_string (name (objs h n)))))
   \<and> (\<forall>p pp. parentState (objs h n) = Some p
          \<and> map_option fst (get_path h p) = Some pp \<and> (pp = None \<or> pp = Some []) \<longrightarrow>
        map_option fst (get_path h n) = Some (name (objs h n)))
   \<and> (\<forall>root a b.
          parentState (objs h n) = Some b \<and> parentState (objs h b) = Some a
          \<and> parentState (objs h a) = Some root \<and> parentState (objs h root) = None
          \<and> name (objs h root) = None \<and> name (objs h a) = Some ''a''
          \<and> name (objs h b) = Some ''b''
          \<and> path_cache (objs h root) = None \<and> path_cache (objs h a) = None
          \<and> path_cache (objs h b) = None \<longrightarrow>
        map_option fst (get_path h n) = Some (Some (''a.b.'' @ js_string (name (objs h n)))))
   \<and> (\<forall>ns. is_chain h (n # ns) \<longrightarrow> (\<exists>r. get_path h n = Some r))
   \<and> (\<forall>v h'. get_path h n = Some (v, h') \<longrightarrow> get_path h' n = Some (v, h'))"
proof (intro conjI allI impI)
  assume "path_cache (objs h n) = None" "parentState (objs h n) = None"
  then show "map_option fst (get_path h n) = Some (name (objs h n))"
    by (simp add: get_path_root)
next
  fix p s
  assume c: "path_cache (objs h n) = None"
    and a: "parentState (objs h n) = Some p
          \<and> map_option fst (get_path h p) = Some (Some s) \<and> s \<noteq> []"
  then show "map_option fst (get_path h n)
               = Some (Some (s @ ''.'' @ js_string (name (objs h n))))"
    using get_path_child_value [of h n p "Some s"] by (simp add: path_fn_def)
next
  fix p pp
  assume c: "path_cache (objs h n) = None"
    and a: "parentState (objs h n) = Some p
          \<and> map_option fst (get_path h p) = Some pp \<and> (pp = None \<or> pp = Some [])"
  then show "map_option fst (get_path h n) = Some (name (objs h n))"
    using get_path_child_value [of h n p pp] by (auto simp: path_fn_def)
next
  fix root a b
  assume c: "path_cache (objs h n) = None"
    and a: "parentState (objs h n) = Some b \<and> parentState (objs h b) = Some a
          \<and> parentState (objs h a) = Some root \<and> parentState (objs h root) = None
          \<and> name (objs h root) = None \<and> name (objs h a) = Some ''a''
          \<and> name (objs h b) = Some ''b''
          \<and> path_cache (objs h root) = None \<and> path_cache (objs h a) = None
          \<and> path_cache (objs h b) = None"
  have r: "map_option fst (get_path h root) = Some None"
    using a by (simp add: get_path_root)
  have pa: "map_option fst (get_path h a) = Some (Some ''a'')"
    using get_path_child_value [of h a root None] a r by (simp add: path_fn_def)
  have pb: "map_option fst (get_path h b) = Some (Some ''a.b'')"
    using get_path_child_value [of h b a "Some ''a''"] a pa
    by (simp add: path_fn_def js_string_def)
  show "map_option fst (get_path h n) = Some (Some (''a.b.'' @ js_string (name (objs h n))))"
    using get_path_child_value [of h n b "Some ''a.b''"] a c pb
    by (simp add: path_fn_def)
next
  fix ns
  assume "is_chain h (n # ns)"
  then show "\<exists>r. get_path h n = Some r" by (rule get_path_returns)
next
  fix v h'
  assume "get_path h n = Some (v, h')"
  then show "get_path h' n = Some (v, h')" by (rule get_path_again)
qed

theorem path_derivation_witness:
  "path_cache (objs abn_tree 0) = None \<and> parentState (objs abn_tree 0) = None
   \<and> map_option fst (get_path abn_tree 0) = Some None
   \<and> path_cache (objs abn_tree 1) = None \<and> parentState (objs abn_tree 1) = Some 0
   \<and> map_option fst (get_path abn_tree 1) = Some (Some ''a'')
   \<and> path_cache (objs abn_tree 3) = None \<and> parentState (objs abn_tree 3) = Some 2
   \<and> parentState (objs abn_tree 2) = Some 1
   \<and> name (objs abn_tree 3) = Some ''n''
   \<and> is_chain abn_tree (3 # [2, 1, 0])
   \<and> map_option fst (get_path abn_tree 3) = Some (Some ''a.b.n'')"
proof -
  have c: "path_cache (objs abn_tree 0) = None" "path_cache (objs abn_tree 1) = None"
    "path_cache (objs abn_tree 3) = None"
    by (simp_all add: abn_tree_eval)
  have p0: "map_option fst (get_path abn_tree 0) = Some None"
    using path_derivation [OF c(1), THEN conjunct1] by (simp add: abn_tree_eval)
  have p1: "map_option fst (get_path abn_tree 1) = Some (Some ''a'')"
    using path_derivation [OF c(2), THEN conjunct2, THEN conjunct2, THEN conjunct1] p0
    by (auto simp: abn_tree_eval)
  have p3: "map_option fst (get_path abn_tree 3) = Some (Some ''a.b.n'')"
    using path_derivation
            [OF c(3), THEN conjunct2, THEN conjunct2, THEN conjunct2, THEN conjunct1]
    by (simp add: abn_tree_eval js_string_def)
  show ?thesis
    using p0 p1 p3 by (simp add: abn_tree_eval)
qed

subsection \<open>Transition actions\<close>

text \<open>
  C3, as amended. Called as \<^verbatim>\<open>callable(manager, x, ...rest)\<close>, the function
  \<^verbatim>\<open>State.transitionTo(t)\<close> returns calls \<^verbatim>\<open>manager.transitionTo\<close> once and
  returns undefined. If \<open>x\<close> is a UI event (an \<^verbatim>\<open>Ember.$.Event\<close>) with its own
  \<^verbatim>\<open>contexts\<close> array, the call is \<^verbatim>\<open>manager.transitionTo(t, ...x.contexts)\<close>.
  If \<open>x\<close> is a UI event without a \<^verbatim>\<open>contexts\<close> property of its own, the call is
  \<^verbatim>\<open>manager.transitionTo(t)\<close>: the event and \<open>rest\<close> are dropped. If \<open>x\<close> is not
  a UI event, the call is \<^verbatim>\<open>manager.transitionTo(t, x, ...rest)\<close>.
\<close>

theorem transitionFunction_forwards:
  "(instanceof_Event x \<and> map_of (own_props x) ''contexts'' = Some (VArr cs) \<longrightarrow>
      transitionFunction t m (x # rest) =
        Inr (VUndef, m\<lparr>transitionTo_calls := transitionTo_calls m @ [VStr t # cs]\<rparr>))
   \<and> (instanceof_Event x \<and> map_of (own_props x) ''contexts'' = None \<longrightarrow>
      transitionFunction t m (x # rest) =
        Inr (VUndef, m\<lparr>transitionTo_calls := transitionTo_calls m @ [[VStr t]]\<rparr>))
   \<and> (\<not> instanceof_Event x \<longrightarrow>
      transitionFunction t m (x # rest) =
        Inr (VUndef, m\<lparr>transitionTo_calls := transitionTo_calls m @ [VStr t # x # rest]\<rparr>))
   \<and> transitionFunction t m [] =
        Inr (VUndef, m\<lparr>transitionTo_calls := transitionTo_calls m @ [[VStr t]]\<rparr>)"
  by (cases x) (auto simp: transitionFunction_def forward_def)

theorem transitionFunction_forwards_witness:
  "instanceof_Event (VEvent [(''contexts'', VArr [VNum 42])])
   \<and> transitionFunction ''stateTwo'' manager_a [VEvent [(''contexts'', VArr [VNum 42])]]
       = Inr (VUndef, manager_a\<lparr>transitionTo_calls := [[VStr ''stateTwo'', VNum 42]]\<rparr>)
   \<and> \<not> instanceof_Event (VNum 1)
   \<and> transitionFunction ''stateTwo'' manager_a [VNum 1, VNum 2, VNum 3]
       = Inr (VUndef,
              manager_a\<lparr>transitionTo_calls := [[VStr ''stateTwo'', VNum 1, VNum 2, VNum 3]]\<rparr>)
   \<and> \<not> instanceof_Event (VObj [(''contexts'', VArr [VNum 42])])
   \<and> transitionFunction ''stateTwo'' manager_a [VObj [(''contexts'', VArr [VNum 42])]]
       = Inr (VUndef,
              manager_a\<lparr>transitionTo_calls :=
                 [[VStr ''stateTwo'', VObj [(''contexts'', VArr [VNum 42])]]]\<rparr>)"
  using transitionFunction_forwards
      [of "VEvent [(''contexts'', VArr [VNum 42])]" "[VNum 42]" "''stateTwo''" manager_a "[]"]
    transitionFunction_forwards
      [of "VNum 1" "[]" "''stateTwo''" manager_a "[VNum 2, VNum 3]"]
    transitionFunction_forwards
      [of "VObj [(''contexts'', VArr [VNum 42])]" "[]" "''stateTwo''" manager_a "[]"]
  by (simp add: manager_a_def)

text \<open>
  C3 as stated fails for a UI event that has no \<^verbatim>\<open>contexts\<close> property of its own:
  it is not an event carrying its own contexts list, so the claim has
  \<^verbatim>\<open>callable(manager, event, 1)\<close> call
  \<^verbatim>\<open>manager.transitionTo('stateTwo', event, 1)\<close>; the code calls
  \<^verbatim>\<open>manager.transitionTo('stateTwo')\<close>.
\<close>

theorem transitionFunction_counterexample:
  "transitionFunction ''stateTwo'' manager_a [VEvent [], VNum 1]
     = Inr (VUndef, manager_a\<lparr>transitionTo_calls := [[VStr ''stateTwo'']]\<rparr>)
   \<and> forward manager_a (VStr ''stateTwo'' # spec_contexts [VEvent [], VNum 1])
     = Inr (VUndef,
            manager_a\<lparr>transitionTo_calls := [[VStr ''stateTwo'', VEvent [], VNum 1]]\<rparr>)
   \<and> transitionFunction ''stateTwo'' manager_a [VEvent [], VNum 1]
     \<noteq> forward manager_a (VStr ''stateTwo'' # spec_contexts [VEvent [], VNum 1])"
  by (simp add: transitionFunction_def forward_def spec_contexts_def manager_a_def)

subsection \<open>trigger\<close>

lemma callable_truthy: "callable f \<Longrightarrow> truthy f"
  by (cases f) simp_all

text \<open>
  What \<^verbatim>\<open>trigger(e, ...args)\<close> does, by what \<^verbatim>\<open>this[e]\<close> reads. A function
  is called once with the arguments after \<open>e\<close>, and then Ember.Evented notifies the
  listeners registered for \<open>e\<close>, each once, the one registered last first. With
  nothing or a falsy value under the name, only the listeners are notified. With a
  truthy value that is not a function, the call raises a TypeError and no listener is
  notified.
\<close>

lemma trigger_cases:
  "(callable (this_get this e) \<longrightarrow>
      trigger this e args =
        Inr (Invoked (this_get this e) args # evented_trigger this e args))
   \<and> (\<not> truthy (this_get this e) \<longrightarrow>
      trigger this e args = Inr (evented_trigger this e args))
   \<and> (truthy (this_get this e) \<and> \<not> callable (this_get this e) \<longrightarrow>
      trigger this e args = Inl TypeError)
   \<and> evented_trigger this e args =
        map (\<lambda>l. Notified (snd l) args) (rev (filter (\<lambda>l. fst l = e) (listeners this)))"
  by (auto simp: trigger_def Let_def callable_truthy evented_trigger_def)

lemma listening_state_eval:
  "this_get listening_state ''enter'' = VFun 0"
  "this_get listening_state ''count'' = VNum 5"
  "this_get listening_state ''exit'' = VUndef"
  "this_get listening_state ''childStates'' = VArr []"
  "evented_trigger listening_state ''enter'' args = [Notified 4 args, Notified 1 args]"
  "evented_trigger listening_state ''count'' args = [Notified 2 args]"
  "evented_trigger listening_state ''exit'' args = [Notified 3 args]"
  "evented_trigger listening_state ''childStates'' args = [Notified 5 args]"
  by (simp_all add: this_get_def evented_trigger_def listening_state_def new_state_def
        state_methods_def object_prototype_get_def object_prototype_functions_def)

lemma trigger_listening_state:
  "trigger listening_state ''enter'' [VNum 7]
     = Inr [Invoked (VFun 0) [VNum 7], Notified 4 [VNum 7], Notified 1 [VNum 7]]"
  "trigger listening_state ''exit'' [VNum 7] = Inr [Notified 3 [VNum 7]]"
  by (simp_all add: trigger_def listening_state_eval)

text \<open>
  C6. The claim: \<^verbatim>\<open>trigger(e, ...args)\<close> calls the method named \<open>e\<close> once and
  notifies the listeners registered for \<open>e\<close> once, the method first, and the
  notification happens whether or not a method of the name exists. The code guards the
  method call with \<^verbatim>\<open>if (this[name])\<close>, which tests for a truthy property and not
  for a method, so the call fails where the name reads a value that is not a function,
  and the notification, which comes after it, is never reached. \<open>listening_state\<close>
  holds the property \<^verbatim>\<open>count: 5\<close> and has a listener for \<^verbatim>\<open>count\<close>:
  \<^verbatim>\<open>trigger('count')\<close> raises a TypeError instead of notifying the listener. It
  has a listener for \<^verbatim>\<open>childStates\<close> as well, a name no state declares but every
  state carries as a field: \<^verbatim>\<open>trigger('childStates')\<close> raises in the same way.
\<close>

theorem trigger_raises_on_value:
  "this_get listening_state ''count'' = VNum 5
   \<and> truthy (VNum 5) \<and> \<not> callable (VNum 5)
   \<and> evented_trigger listening_state ''count'' [] = [Notified 2 []]
   \<and> trigger listening_state ''count'' [] = Inl TypeError
   \<and> this_get listening_state ''childStates'' = VArr []
   \<and> evented_trigger listening_state ''childStates'' [] = [Notified 5 []]
   \<and> trigger listening_state ''childStates'' [] = Inl TypeError"
  by (simp add: trigger_def listening_state_eval)

subsection \<open>isLeaf\<close>

text \<open>
  The first read of \<^verbatim>\<open>isLeaf\<close> on a node returns true if and only if its
  \<^verbatim>\<open>childStates\<close> is empty at that moment, and stores the answer; every later read
  returns the stored answer, whatever \<^verbatim>\<open>childStates\<close> holds by then.
\<close>

lemma isLeaf_first_read_cached:
  "(isLeaf_cache (objs h n) = None \<longrightarrow>
      fst (get_isLeaf h n) = (childStates (objs h n) = [])
      \<and> isLeaf_cache (objs (snd (get_isLeaf h n)) n) = Some (childStates (objs h n) = []))
   \<and> (isLeaf_cache (objs h n) = Some b \<longrightarrow> get_isLeaf h n = (b, h))"
  by (simp add: get_isLeaf_def isLeaf_fn_def Let_def upd_def)

text \<open>
  C7. The claim: at any time \<^verbatim>\<open>isLeaf\<close> is true if and only if
  \<^verbatim>\<open>childStates\<close> is empty at that moment, so that reading it before and after a
  child is attached gives true and then false. The code declares \<^verbatim>\<open>isLeaf\<close> with
  \<^verbatim>\<open>Ember.computed\<close> and no dependent keys, so the first answer is kept: read
  on state 0 of \<open>three_states\<close>, \<^verbatim>\<open>isLeaf\<close> is true; after \<^verbatim>\<open>setupChild\<close>
  has attached state 1 to it, \<^verbatim>\<open>childStates\<close> holds one state and \<^verbatim>\<open>isLeaf\<close>
  still reads true, on a state that has a child.
\<close>

theorem isLeaf_true_with_child:
  "isLeaf_cache (objs three_states 0) = None
   \<and> childStates (objs three_states 0) = []
   \<and> fst (get_isLeaf three_states 0) = True
   \<and> childStates (objs (snd (snd (setupChild 0 [] ''a'' (VState 1)
         (snd (get_isLeaf three_states 0))))) 0) = [1]
   \<and> parentState (objs (snd (snd (setupChild 0 [] ''a'' (VState 1)
         (snd (get_isLeaf three_states 0))))) 1) = Some 0
   \<and> fst (get_isLeaf (snd (snd (setupChild 0 [] ''a'' (VState 1)
         (snd (get_isLeaf three_states 0))))) 0) = True"
  by (simp add: get_isLeaf_def isLeaf_fn_def three_states_eval setupChild.simps attach_def
        upd_def Let_def)

subsection \<open>Transition markers met by init\<close>












end
